theory Spec2Isabelle
  imports Main "HOL-Library.AList"
begin

section \<open>The tenant store of fiber-multitenant (package tenantstore, store.go)\<close>

text \<open>
  The store keeps one \<open>*gorm.DB\<close> per tenant schema in a Go map guarded by a
  read/write mutex. Every exported operation is modelled as a function from the store
  and the outside world to a result, the store and the world afterwards; one call is
  one step (the section it runs under \<open>s.mu\<close>, and for the health check under
  \<open>s.healthMu\<close>).

  The database driver is outside the repository. Each driver call is a function of
  the history of driver calls so far (so that a call may fail once and succeed later);
  the call and its outcome are appended to the history. A goroutine started with
  \<open>go\<close> does not run inside the call that starts it: it is put on a list of
  started goroutines, and what it does to the store, given the time it has been
  running, is a function of its own.
\<close>

subsection \<open>Data\<close>

type_synonym conn = nat
  \<comment> \<open>the identity of a \<open>*gorm.DB\<close>\<close>

type_synonym io_error = string
  \<comment> \<open>the error value a driver call returns; \<open>None\<close> is Go's \<open>nil\<close>\<close>

datatype event =
    GormOpen string "io_error option"
  | Exec conn string "io_error option"
  | AutoMigrateCall conn "string list" "io_error option"
  | DBHandle conn "io_error option"
  | PingContext conn "io_error option"
  | SqlClose conn "io_error option"

record driver =
  open_result :: "event list \<Rightarrow> string \<Rightarrow> io_error option"
  exec_result :: "event list \<Rightarrow> conn \<Rightarrow> string \<Rightarrow> io_error option"
  migrate_result :: "event list \<Rightarrow> conn \<Rightarrow> string list \<Rightarrow> io_error option"
  handle_result :: "event list \<Rightarrow> conn \<Rightarrow> io_error option"
  ping_result :: "event list \<Rightarrow> conn \<Rightarrow> io_error option"
  close_result :: "event list \<Rightarrow> conn \<Rightarrow> io_error option"

datatype goroutine = ResetFlag string
  \<comment> \<open>the one \<open>go func()\<close> of the store (lines 161 to 166), with the schema it captures\<close>

record world =
  trace :: "event list"
  next_conn :: conn
  goroutines :: "goroutine list"

text \<open>
  \<open>Config\<close> without its \<open>Logger\<close>, which no operation reads but to pass it on to
  \<open>gorm.Open\<close>; the two durations are counted in seconds. The \<open>context.Context\<close> that
  \<open>GetTenantDB\<close> passes to the driver is not a parameter of the model: a cancelled or
  expired context is a driver call that fails.
\<close>

record Config =
  MasterDSN :: string
  GetTenantDSN :: "string \<Rightarrow> string"
  AutoMigrate :: bool
  Models :: "string list"
  ConnectionTimeout :: nat
  HealthCheckInterval :: nat

record TenantStore =
  masterDB :: conn
  tenantDBs :: "(string \<times> conn) list"
  config :: Config
  healthCheckDone :: "(string \<times> bool) list"

text \<open>
  The two Go maps are association lists: \<open>map_of\<close> reads a key, \<open>AList.update\<close>
  assigns one and \<open>AList.delete\<close> removes every entry of one. The order of
  \<open>tenantDBs\<close> stands for the order in which \<open>range\<close> visits the map, which Go
  leaves open; the theorems hold for every store, so for every order.
\<close>

datatype store_error =
    ConfigNil
  | MasterConnectFailed io_error
  | EmptySchema
  | CreateSchemaFailed io_error
  | EnsureSchemaFailed store_error
  | TenantConnectFailed io_error
  | AutoMigrateFailed io_error
  | UnderlyingDBFailed io_error
  | CloseConnectionFailed io_error
  | GetDBForFailed string io_error
  | CloseConnectionForFailed string io_error
  | GetMasterDBFailed io_error
  | CloseMasterFailed io_error
  | CloseErrors "store_error list"

subsection \<open>Driver calls\<close>

definition gorm_Open :: "driver \<Rightarrow> string \<Rightarrow> world \<Rightarrow> (io_error + conn) \<times> world" where
  "gorm_Open d dsn w =
     (case open_result d (trace w) dsn of
        Some e \<Rightarrow> (Inl e, w\<lparr>trace := trace w @ [GormOpen dsn (Some e)]\<rparr>)
      | None \<Rightarrow>
          (Inr (next_conn w),
           w\<lparr>trace := trace w @ [GormOpen dsn None], next_conn := Suc (next_conn w)\<rparr>))"

definition db_Exec :: "driver \<Rightarrow> conn \<Rightarrow> string \<Rightarrow> world \<Rightarrow> io_error option \<times> world" where
  "db_Exec d c sql w =
     (let r = exec_result d (trace w) c sql in (r, w\<lparr>trace := trace w @ [Exec c sql r]\<rparr>))"

definition db_AutoMigrate ::
  "driver \<Rightarrow> conn \<Rightarrow> string list \<Rightarrow> world \<Rightarrow> io_error option \<times> world" where
  "db_AutoMigrate d c ms w =
     (let r = migrate_result d (trace w) c ms
      in (r, w\<lparr>trace := trace w @ [AutoMigrateCall c ms r]\<rparr>))"

definition db_DB :: "driver \<Rightarrow> conn \<Rightarrow> world \<Rightarrow> io_error option \<times> world" where
  "db_DB d c w =
     (let r = handle_result d (trace w) c in (r, w\<lparr>trace := trace w @ [DBHandle c r]\<rparr>))"

definition sql_PingContext :: "driver \<Rightarrow> conn \<Rightarrow> world \<Rightarrow> io_error option \<times> world" where
  "sql_PingContext d c w =
     (let r = ping_result d (trace w) c in (r, w\<lparr>trace := trace w @ [PingContext c r]\<rparr>))"

definition sql_Close :: "driver \<Rightarrow> conn \<Rightarrow> world \<Rightarrow> io_error option \<times> world" where
  "sql_Close d c w =
     (let r = close_result d (trace w) c in (r, w\<lparr>trace := trace w @ [SqlClose c r]\<rparr>))"

subsection \<open>DefaultConfig and New\<close>

definition DefaultConfig :: "string \<Rightarrow> Config" where
  "DefaultConfig masterDSN =
     \<lparr>MasterDSN = masterDSN,
      GetTenantDSN = (\<lambda>tenantSchema. masterDSN @ ''&search_path='' @ tenantSchema @ '',public''),
      AutoMigrate = True,
      Models = [],
      ConnectionTimeout = 10,
      HealthCheckInterval = 300\<rparr>"

definition New :: "driver \<Rightarrow> Config option \<Rightarrow> world \<Rightarrow> (store_error + TenantStore) \<times> world" where
  "New d cfg w =
     (case cfg of
        None \<Rightarrow> (Inl ConfigNil, w)
      | Some c \<Rightarrow>
          (case gorm_Open d (MasterDSN c) w of
             (Inl err, w1) \<Rightarrow> (Inl (MasterConnectFailed err), w1)
           | (Inr db, w1) \<Rightarrow>
               (Inr \<lparr>masterDB = db, tenantDBs = [], config = c, healthCheckDone = []\<rparr>, w1)))"

definition GetMasterDB :: "TenantStore \<Rightarrow> conn" where
  "GetMasterDB s = masterDB s"

subsection \<open>GetTenantDB\<close>

definition ensureSchema ::
  "driver \<Rightarrow> TenantStore \<Rightarrow> string \<Rightarrow> world \<Rightarrow> store_error option \<times> world" where
  "ensureSchema d s schemaName w =
     (let createSchemaSQL = ''CREATE SCHEMA IF NOT EXISTS '' @ schemaName in
      case db_Exec d (masterDB s) createSchemaSQL w of
        (Some err, w1) \<Rightarrow> (Some (CreateSchemaFailed err), w1)
      | (None, w1) \<Rightarrow> (None, w1))"

definition flag :: "(string \<times> bool) list \<Rightarrow> string \<Rightarrow> bool" where
  \<comment> \<open>reading a Go \<open>map[string]bool\<close>: a missing key reads as \<open>false\<close>\<close>
  "flag m k = (case map_of m k of Some b \<Rightarrow> b | None \<Rightarrow> False)"

definition healthCheckWithInterval ::
  "driver \<Rightarrow> string \<Rightarrow> conn \<Rightarrow> TenantStore \<Rightarrow> world \<Rightarrow> TenantStore \<times> world" where
  "healthCheckWithInterval d tenantSchema db s w =
     (if flag (healthCheckDone s) tenantSchema then (s, w)
      else
        (case db_DB d db w of
           (Some err, w1) \<Rightarrow> (s, w1)
         | (None, w1) \<Rightarrow>
             (case sql_PingContext d db w1 of
                (Some err, w2) \<Rightarrow> (s, w2)
              | (None, w2) \<Rightarrow>
                  (s\<lparr>healthCheckDone := AList.update tenantSchema True (healthCheckDone s)\<rparr>,
                   w2\<lparr>goroutines := goroutines w2 @ [ResetFlag tenantSchema]\<rparr>))))"

fun run_goroutine :: "goroutine \<Rightarrow> nat \<Rightarrow> TenantStore \<Rightarrow> TenantStore" where
  \<comment> \<open>lines 161 to 166: what the goroutine has done to the store \<open>s\<close> when \<open>elapsed\<close>
      seconds have passed since it started. \<open>time.Sleep(s.config.HealthCheckInterval)\<close>
      returns no earlier than the interval; until then the goroutine has done nothing,
      afterwards it assigns \<open>false\<close> to the flag of its schema.\<close>
  "run_goroutine (ResetFlag tenantSchema) elapsed s =
     (if elapsed < HealthCheckInterval (config s) then s
      else s\<lparr>healthCheckDone := AList.update tenantSchema False (healthCheckDone s)\<rparr>)"

definition store_conn :: "string \<Rightarrow> conn \<Rightarrow> TenantStore \<Rightarrow> TenantStore" where
  \<comment> \<open>lines 130 and 131: the two map assignments that store a new connection\<close>
  "store_conn tenantSchema tenantDB s =
     s\<lparr>tenantDBs := AList.update tenantSchema tenantDB (tenantDBs s),
       healthCheckDone := AList.update tenantSchema False (healthCheckDone s)\<rparr>"

definition GetTenantDB_locked ::
  "driver \<Rightarrow> string \<Rightarrow> TenantStore \<Rightarrow> world \<Rightarrow> (store_error + conn) \<times> TenantStore \<times> world" where
  \<comment> \<open>lines 98 to 133: what runs under \<open>s.mu.Lock()\<close>, starting with the second look\<close>
  "GetTenantDB_locked d tenantSchema s w =
     (case map_of (tenantDBs s) tenantSchema of
        Some db \<Rightarrow> (Inr db, s, w)
      | None \<Rightarrow>
          (case ensureSchema d s tenantSchema w of
             (Some err, w1) \<Rightarrow> (Inl (EnsureSchemaFailed err), s, w1)
           | (None, w1) \<Rightarrow>
               (let tenantDSN = GetTenantDSN (config s) tenantSchema in
                case gorm_Open d tenantDSN w1 of
                  (Inl err, w2) \<Rightarrow> (Inl (TenantConnectFailed err), s, w2)
                | (Inr tenantDB, w2) \<Rightarrow>
                    if AutoMigrate (config s) \<and> length (Models (config s)) > 0 then
                      (case db_AutoMigrate d tenantDB (Models (config s)) w2 of
                         (Some err, w3) \<Rightarrow> (Inl (AutoMigrateFailed err), s, w3)
                       | (None, w3) \<Rightarrow> (Inr tenantDB, store_conn tenantSchema tenantDB s, w3))
                    else (Inr tenantDB, store_conn tenantSchema tenantDB s, w2))))"

definition GetTenantDB ::
  "driver \<Rightarrow> string \<Rightarrow> TenantStore \<Rightarrow> world \<Rightarrow> (store_error + conn) \<times> TenantStore \<times> world" where
  "GetTenantDB d tenantSchema s w =
     (if tenantSchema = [] then (Inl EmptySchema, s, w)
      else
        (case map_of (tenantDBs s) tenantSchema of
           Some db \<Rightarrow>
             (case healthCheckWithInterval d tenantSchema db s w of
                (s1, w1) \<Rightarrow> (Inr db, s1, w1))
         | None \<Rightarrow> GetTenantDB_locked d tenantSchema s w))"

subsection \<open>RemoveTenantDB, Close and GetAllTenantSchemas\<close>

definition RemoveTenantDB ::
  "driver \<Rightarrow> string \<Rightarrow> TenantStore \<Rightarrow> world \<Rightarrow> store_error option \<times> TenantStore \<times> world" where
  "RemoveTenantDB d tenantSchema s w =
     (case map_of (tenantDBs s) tenantSchema of
        None \<Rightarrow> (None, s, w)
      | Some db \<Rightarrow>
          (case db_DB d db w of
             (Some err, w1) \<Rightarrow> (Some (UnderlyingDBFailed err), s, w1)
           | (None, w1) \<Rightarrow>
               (case sql_Close d db w1 of
                  (Some err, w2) \<Rightarrow> (Some (CloseConnectionFailed err), s, w2)
                | (None, w2) \<Rightarrow>
                    (None,
                     s\<lparr>tenantDBs := AList.delete tenantSchema (tenantDBs s),
                       healthCheckDone := AList.delete tenantSchema (healthCheckDone s)\<rparr>,
                     w2))))"

fun close_tenants ::
  "driver \<Rightarrow> (string \<times> conn) list \<Rightarrow> store_error list \<Rightarrow> world \<Rightarrow> store_error list \<times> world" where
  "close_tenants d [] errs w = (errs, w)"
| "close_tenants d ((schema, db) # rest) errs w =
     (case db_DB d db w of
        (Some err, w1) \<Rightarrow> close_tenants d rest (errs @ [GetDBForFailed schema err]) w1
      | (None, w1) \<Rightarrow>
          (case sql_Close d db w1 of
             (Some err, w2) \<Rightarrow> close_tenants d rest (errs @ [CloseConnectionForFailed schema err]) w2
           | (None, w2) \<Rightarrow> close_tenants d rest errs w2))"

definition close_master ::
  "driver \<Rightarrow> conn \<Rightarrow> store_error list \<Rightarrow> world \<Rightarrow> store_error list \<times> world" where
  \<comment> \<open>lines 216 to 224\<close>
  "close_master d m errs w =
     (case db_DB d m w of
        (Some err, w1) \<Rightarrow> (errs @ [GetMasterDBFailed err], w1)
      | (None, w1) \<Rightarrow>
          (case sql_Close d m w1 of
             (Some err, w2) \<Rightarrow> (errs @ [CloseMasterFailed err], w2)
           | (None, w2) \<Rightarrow> (errs, w2)))"

definition Close :: "driver \<Rightarrow> TenantStore \<Rightarrow> world \<Rightarrow> store_error option \<times> TenantStore \<times> world" where
  "Close d s w =
     (case close_tenants d (tenantDBs s) [] w of
        (errs1, w1) \<Rightarrow>
          (case close_master d (masterDB s) errs1 w1 of
             (errs, w2) \<Rightarrow>
               (if length errs > 0 then Some (CloseErrors errs) else None, s, w2)))"

definition GetAllTenantSchemas :: "TenantStore \<Rightarrow> string list" where
  "GetAllTenantSchemas s = map fst (tenantDBs s)"

subsection \<open>Reading a history\<close>

fun is_provision :: "event \<Rightarrow> bool" where
  "is_provision (Exec c q r) = True"
| "is_provision _ = False"

fun is_open :: "event \<Rightarrow> bool" where
  "is_open (GormOpen dsn r) = True"
| "is_open _ = False"

fun failed :: "event \<Rightarrow> bool" where
  "failed (GormOpen dsn r) = (r \<noteq> None)"
| "failed (Exec c q r) = (r \<noteq> None)"
| "failed (AutoMigrateCall c ms r) = (r \<noteq> None)"
| "failed (DBHandle c r) = (r \<noteq> None)"
| "failed (PingContext c r) = (r \<noteq> None)"
| "failed (SqlClose c r) = (r \<noteq> None)"

subsection \<open>Test doubles\<close>

text \<open>
  Drivers with fixed behaviour and the stores they produce, for evaluating the
  operations on concrete inputs. \<open>store_acme\<close> is the store after \<open>New\<close> and one
  \<open>GetTenantDB\<close> for the schema \<open>acme\<close> on a driver where every call succeeds.
\<close>

definition driver_ok :: driver where
  "driver_ok =
     \<lparr>open_result = (\<lambda>tr dsn. None),
      exec_result = (\<lambda>tr c q. None),
      migrate_result = (\<lambda>tr c ms. None),
      handle_result = (\<lambda>tr c. None),
      ping_result = (\<lambda>tr c. None),
      close_result = (\<lambda>tr c. None)\<rparr>"

definition driver_open_fails_once :: driver where
  \<comment> \<open>opening a tenant connection fails the first time it is tried and succeeds afterwards\<close>
  "driver_open_fails_once =
     driver_ok\<lparr>open_result :=
       (\<lambda>tr dsn. if length (filter is_open tr) = 1 then Some ''connection refused'' else None)\<rparr>"

definition driver_ping_fails :: driver where
  "driver_ping_fails = driver_ok\<lparr>ping_result := (\<lambda>tr c. Some ''i/o timeout'')\<rparr>"

definition driver_close_fails :: driver where
  "driver_close_fails = driver_ok\<lparr>close_result := (\<lambda>tr c. Some ''close failed'')\<rparr>"

definition driver_acme_close_fails :: driver where
  "driver_acme_close_fails =
     driver_ok\<lparr>close_result := (\<lambda>tr c. if c = 1 then Some ''close failed'' else None)\<rparr>"

definition world0 :: world where
  "world0 = \<lparr>trace = [], next_conn = 0, goroutines = []\<rparr>"

definition world_master :: world where
  "world_master = \<lparr>trace = [GormOpen ''host=db'' None], next_conn = 1, goroutines = []\<rparr>"

definition world_acme :: world where
  "world_acme =
     \<lparr>trace = [GormOpen ''host=db'' None,
               Exec 0 ''CREATE SCHEMA IF NOT EXISTS acme'' None,
               GormOpen ''host=db&search_path=acme,public'' None],
      next_conn = 2, goroutines = []\<rparr>"

definition world_two :: world where
  "world_two =
     \<lparr>trace = [GormOpen ''host=db'' None,
               Exec 0 ''CREATE SCHEMA IF NOT EXISTS acme'' None,
               GormOpen ''host=db&search_path=acme,public'' None,
               Exec 0 ''CREATE SCHEMA IF NOT EXISTS beta'' None,
               GormOpen ''host=db&search_path=beta,public'' None],
      next_conn = 3, goroutines = []\<rparr>"

definition world_beta_failed :: world where
  "world_beta_failed =
     \<lparr>trace = [GormOpen ''host=db'' None,
               Exec 0 ''CREATE SCHEMA IF NOT EXISTS beta'' None,
               GormOpen ''host=db&search_path=beta,public'' (Some ''connection refused'')],
      next_conn = 1, goroutines = []\<rparr>"

definition store_empty :: TenantStore where
  "store_empty = \<lparr>masterDB = 0, tenantDBs = [], config = DefaultConfig ''host=db'', healthCheckDone = []\<rparr>"

definition store_acme :: TenantStore where
  "store_acme = \<lparr>masterDB = 0, tenantDBs = [(''acme'', 1)], config = DefaultConfig ''host=db'',
      healthCheckDone = [(''acme'', False)]\<rparr>"

definition store_two :: TenantStore where
  "store_two = \<lparr>masterDB = 0, tenantDBs = [(''acme'', 1), (''beta'', 2)],
      config = DefaultConfig ''host=db'',
      healthCheckDone = [(''acme'', False), (''beta'', False)]\<rparr>"

section \<open>Properties\<close>

text \<open>
  C8. \<open>GetTenantDB\<close> with the empty string as tenant schema returns the error
  "tenant schema cannot be empty" and no connection; the store is the one it was
  called on and the world is unchanged: no record is inserted and no driver call
  (so no schema creation) is made.
\<close>

theorem GetTenantDB_empty_schema:
  "GetTenantDB d [] s w = (Inl EmptySchema, s, w)"
  by (simp add: GetTenantDB_def)

text \<open>
  C10. \<open>New\<close> with a nil configuration returns the error "config cannot be nil" and
  no store; the world is unchanged, so the master connection is not opened, and no
  field of the configuration is read.
\<close>

theorem New_nil_config:
  "New d None w = (Inl ConfigNil, w)"
  by (simp add: New_def)

subsection \<open>The stores of the test doubles are stores the operations produce\<close>

lemma store_acme_built:
  "New driver_ok (Some (DefaultConfig ''host=db'')) world0 = (Inr store_empty, world_master) \<and>
   GetTenantDB driver_ok ''acme'' store_empty world_master = (Inr 1, store_acme, world_acme)"
  by (simp add: New_def GetTenantDB_def GetTenantDB_locked_def ensureSchema_def gorm_Open_def
      db_Exec_def store_conn_def driver_ok_def world0_def store_empty_def world_master_def
      store_acme_def world_acme_def DefaultConfig_def)

subsection \<open>A cached tenant\<close>

lemma hc_shape:
  "\<exists>s1 w1 evs. healthCheckWithInterval d k db s w = (s1, w1) \<and> tenantDBs s1 = tenantDBs s
      \<and> masterDB s1 = masterDB s \<and> config s1 = config s
      \<and> trace w1 = trace w @ evs \<and> filter is_provision evs = [] \<and> filter is_open evs = []
      \<and> next_conn w1 = next_conn w"
  by (auto simp: healthCheckWithInterval_def db_DB_def sql_PingContext_def Let_def split: option.splits)

lemma hc_tenantDBs:
  "healthCheckWithInterval d k db s w = (s1, w1) \<Longrightarrow> tenantDBs s1 = tenantDBs s"
  by (auto simp: healthCheckWithInterval_def db_DB_def sql_PingContext_def Let_def
      split: option.splits if_splits)

lemma GetTenantDB_hit_aux:
  assumes "k \<noteq> []" and "map_of (tenantDBs s) k = Some db"
  shows "\<exists>s1 w1 evs. GetTenantDB d k s w = (Inr db, s1, w1) \<and> tenantDBs s1 = tenantDBs s
      \<and> trace w1 = trace w @ evs \<and> filter is_provision evs = [] \<and> filter is_open evs = []
      \<and> next_conn w1 = next_conn w"
  using assms hc_shape[of d k db s w]
  by (auto simp: GetTenantDB_def)

lemma GetTenantDB_keeps_records:
  assumes "map_of (tenantDBs s) k = Some db" and "GetTenantDB d k' s w = (r, s1, w1)"
  shows "map_of (tenantDBs s1) k = Some db"
proof (cases "k' = [] \<or> map_of (tenantDBs s) k' \<noteq> None")
  case True
  show ?thesis
  proof (cases "k' = []")
    case True
    with assms show ?thesis by (simp add: GetTenantDB_def)
  next
    case False
    with True obtain y where y: "map_of (tenantDBs s) k' = Some y" by auto
    obtain s2 w2 where hc: "healthCheckWithInterval d k' y s w = (s2, w2)"
      by (cases "healthCheckWithInterval d k' y s w") auto
    with False y assms(2) have "s1 = s2" by (simp add: GetTenantDB_def)
    with hc_tenantDBs[OF hc] assms(1) show ?thesis by simp
  qed
next
  case False
  then have "k' \<noteq> k" using assms by auto
  with False assms show ?thesis
    by (auto simp: GetTenantDB_def GetTenantDB_locked_def store_conn_def update_conv' Let_def
        split: option.splits prod.splits sum.splits if_splits)
qed

lemma GetTenantDB_stores_result:
  assumes "GetTenantDB d k s0 w0 = (Inr db, s, w)"
  shows "map_of (tenantDBs s) k = Some db"
proof (cases "map_of (tenantDBs s0) k")
  case None
  with assms show ?thesis
    by (auto simp: GetTenantDB_def GetTenantDB_locked_def store_conn_def update_conv' Let_def
        split: option.splits prod.splits sum.splits if_splits)
next
  case (Some y)
  with assms have "k \<noteq> []" by (auto simp: GetTenantDB_def split: if_splits)
  from GetTenantDB_hit_aux[OF this Some, of d w0] assms show ?thesis
    using Some by auto
qed

text \<open>
  C1. A connection that \<open>GetTenantDB\<close> returned for a schema is the one stored for
  that schema. While the record is in the map, every \<open>GetTenantDB\<close> for that schema
  returns that same connection and leaves the map as it is; the driver calls it makes
  include no schema creation (\<open>ensureSchema\<close>) and no \<open>gorm.Open\<close>, and no new
  connection is allocated. A \<open>GetTenantDB\<close> for any schema keeps the record.
\<close>

theorem GetTenantDB_cached_same_connection:
  "(GetTenantDB d k s0 w0 = (Inr db, s, w) \<longrightarrow> map_of (tenantDBs s) k = Some db) \<and>
   (k \<noteq> [] \<and> map_of (tenantDBs s) k = Some db \<longrightarrow>
      (\<exists>s1 w1 evs. GetTenantDB d2 k s w2 = (Inr db, s1, w1) \<and> tenantDBs s1 = tenantDBs s \<and>
          trace w1 = trace w2 @ evs \<and> filter is_provision evs = [] \<and> filter is_open evs = [] \<and>
          next_conn w1 = next_conn w2)) \<and>
   (map_of (tenantDBs s) k = Some db \<and> GetTenantDB d3 k3 s w3 = (r3, s3, w4) \<longrightarrow>
      map_of (tenantDBs s3) k = Some db)"
  using GetTenantDB_stores_result[of d k s0 w0 db s w] GetTenantDB_hit_aux[of k s db d2 w2]
    GetTenantDB_keeps_records[of s k db d3 k3 w3 r3 s3 w4]
  by blast

theorem GetTenantDB_cached_same_connection_witness:
  "GetTenantDB driver_ok ''acme'' store_empty world_master = (Inr 1, store_acme, world_acme) \<and>
   map_of (tenantDBs store_acme) ''acme'' = Some 1 \<and>
   (\<exists>s1 w1 evs. GetTenantDB driver_ok ''acme'' store_acme world_acme = (Inr 1, s1, w1) \<and>
       tenantDBs s1 = tenantDBs store_acme \<and> trace w1 = trace world_acme @ evs \<and>
       filter is_provision evs = [] \<and> filter is_open evs = [] \<and>
       next_conn w1 = next_conn world_acme) \<and>
   GetTenantDB driver_ok ''beta'' store_acme world_acme =
     (Inr 2, store_conn ''beta'' 2 store_acme,
      world_acme\<lparr>trace := trace world_acme @
         [Exec 0 ''CREATE SCHEMA IF NOT EXISTS beta'' None,
          GormOpen ''host=db&search_path=beta,public'' None], next_conn := 3\<rparr>) \<and>
   map_of (tenantDBs (store_conn ''beta'' 2 store_acme)) ''acme'' = Some 1"
proof -
  have built: "GetTenantDB driver_ok ''acme'' store_empty world_master = (Inr 1, store_acme, world_acme)"
    using store_acme_built by simp
  have beta: "GetTenantDB driver_ok ''beta'' store_acme world_acme =
     (Inr 2, store_conn ''beta'' 2 store_acme,
      world_acme\<lparr>trace := trace world_acme @
         [Exec 0 ''CREATE SCHEMA IF NOT EXISTS beta'' None,
          GormOpen ''host=db&search_path=beta,public'' None], next_conn := 3\<rparr>)"
    by (simp add: GetTenantDB_def GetTenantDB_locked_def ensureSchema_def gorm_Open_def
      db_Exec_def driver_ok_def store_acme_def world_acme_def DefaultConfig_def)
  have key: "''acme'' \<noteq> []" by simp
  show ?thesis
    using GetTenantDB_cached_same_connection[of driver_ok "''acme''" store_empty world_master 1
        store_acme world_acme driver_ok world_acme driver_ok "''beta''" world_acme
        "Inr 2" "store_conn ''beta'' 2 store_acme"] built beta key
    by blast
qed

subsection \<open>A failed construction\<close>

lemma GetTenantDB_miss_run:
  assumes "k \<noteq> []" and "map_of (tenantDBs s) k = None"
    and "GetTenantDB d k s w = (r, s1, w1)"
  shows "\<exists>evs. trace w1 = trace w @ evs \<and>
     ((\<exists>x. evs = [Exec (masterDB s) (''CREATE SCHEMA IF NOT EXISTS '' @ k) (Some x)] \<and>
           r = Inl (EnsureSchemaFailed (CreateSchemaFailed x)) \<and> s1 = s) \<or>
      (\<exists>x. evs = [Exec (masterDB s) (''CREATE SCHEMA IF NOT EXISTS '' @ k) None,
                    GormOpen (GetTenantDSN (config s) k) (Some x)] \<and>
           r = Inl (TenantConnectFailed x) \<and> s1 = s) \<or>
      (\<exists>x. evs = [Exec (masterDB s) (''CREATE SCHEMA IF NOT EXISTS '' @ k) None,
                    GormOpen (GetTenantDSN (config s) k) None,
                    AutoMigrateCall (next_conn w) (Models (config s)) (Some x)] \<and>
           AutoMigrate (config s) \<and> Models (config s) \<noteq> [] \<and>
           r = Inl (AutoMigrateFailed x) \<and> s1 = s) \<or>
      (evs = [Exec (masterDB s) (''CREATE SCHEMA IF NOT EXISTS '' @ k) None,
              GormOpen (GetTenantDSN (config s) k) None,
              AutoMigrateCall (next_conn w) (Models (config s)) None] \<and>
           AutoMigrate (config s) \<and> Models (config s) \<noteq> [] \<and>
           r = Inr (next_conn w) \<and> s1 = store_conn k (next_conn w) s) \<or>
      (evs = [Exec (masterDB s) (''CREATE SCHEMA IF NOT EXISTS '' @ k) None,
              GormOpen (GetTenantDSN (config s) k) None] \<and>
           \<not> (AutoMigrate (config s) \<and> Models (config s) \<noteq> []) \<and>
           r = Inr (next_conn w) \<and> s1 = store_conn k (next_conn w) s))"
  using assms
  by (auto simp: GetTenantDB_def GetTenantDB_locked_def ensureSchema_def db_Exec_def gorm_Open_def
      db_AutoMigrate_def Let_def split: option.splits if_splits)

lemma GetTenantDB_error_unchanged:
  assumes "GetTenantDB d k s w = (Inl e, s1, w1)"
  shows "s1 = s \<and> (k \<noteq> [] \<longrightarrow> map_of (tenantDBs s) k = None)"
  using assms
  by (auto simp: GetTenantDB_def GetTenantDB_locked_def Let_def
      split: option.splits if_splits prod.splits sum.splits)

lemma GetTenantDB_miss_starts_over:
  assumes "k \<noteq> []" and "map_of (tenantDBs s) k = None"
  shows "\<exists>r s1 w1 pr rest. GetTenantDB d k s w = (r, s1, w1) \<and>
      trace w1 = trace w @ Exec (masterDB s) (''CREATE SCHEMA IF NOT EXISTS '' @ k) pr # rest \<and>
      (pr = None \<longrightarrow> (\<exists>po rest'. rest = GormOpen (GetTenantDSN (config s) k) po # rest'))"
  using assms
  by (auto simp: GetTenantDB_def GetTenantDB_locked_def ensureSchema_def db_Exec_def gorm_Open_def
      db_AutoMigrate_def Let_def split: option.splits if_splits)

text \<open>
  C3. \<open>GetTenantDB\<close> for a schema that is not cached runs schema creation, then
  \<open>gorm.Open\<close>, then (when enabled and there are models) \<open>AutoMigrate\<close>, and stops at
  the first call that fails: it returns the error of that step and the store is the
  one it was called on. After an error the schema is still absent, and the next
  \<open>GetTenantDB\<close> for it starts over: it calls schema creation again and, when that
  succeeds, \<open>gorm.Open\<close> again.
\<close>

theorem GetTenantDB_failure_inserts_nothing:
  assumes "k \<noteq> []" and "map_of (tenantDBs s) k = None"
    and "GetTenantDB d k s w = (r, s1, w1)"
  shows "(\<exists>evs. trace w1 = trace w @ evs \<and>
     ((\<exists>x. evs = [Exec (masterDB s) (''CREATE SCHEMA IF NOT EXISTS '' @ k) (Some x)] \<and>
           r = Inl (EnsureSchemaFailed (CreateSchemaFailed x)) \<and> s1 = s) \<or>
      (\<exists>x. evs = [Exec (masterDB s) (''CREATE SCHEMA IF NOT EXISTS '' @ k) None,
                    GormOpen (GetTenantDSN (config s) k) (Some x)] \<and>
           r = Inl (TenantConnectFailed x) \<and> s1 = s) \<or>
      (\<exists>x. evs = [Exec (masterDB s) (''CREATE SCHEMA IF NOT EXISTS '' @ k) None,
                    GormOpen (GetTenantDSN (config s) k) None,
                    AutoMigrateCall (next_conn w) (Models (config s)) (Some x)] \<and>
           AutoMigrate (config s) \<and> Models (config s) \<noteq> [] \<and>
           r = Inl (AutoMigrateFailed x) \<and> s1 = s) \<or>
      (evs = [Exec (masterDB s) (''CREATE SCHEMA IF NOT EXISTS '' @ k) None,
              GormOpen (GetTenantDSN (config s) k) None,
              AutoMigrateCall (next_conn w) (Models (config s)) None] \<and>
           AutoMigrate (config s) \<and> Models (config s) \<noteq> [] \<and>
           r = Inr (next_conn w) \<and> s1 = store_conn k (next_conn w) s) \<or>
      (evs = [Exec (masterDB s) (''CREATE SCHEMA IF NOT EXISTS '' @ k) None,
              GormOpen (GetTenantDSN (config s) k) None] \<and>
           \<not> (AutoMigrate (config s) \<and> Models (config s) \<noteq> []) \<and>
           r = Inr (next_conn w) \<and> s1 = store_conn k (next_conn w) s))) \<and>
    (\<forall>e. r = Inl e \<longrightarrow>
       s1 = s \<and> map_of (tenantDBs s1) k = None \<and>
       (\<exists>r2 s2 w3 pr rest. GetTenantDB d2 k s1 w2 = (r2, s2, w3) \<and>
          trace w3 = trace w2 @ Exec (masterDB s) (''CREATE SCHEMA IF NOT EXISTS '' @ k) pr # rest \<and>
          (pr = None \<longrightarrow> (\<exists>po rest'. rest = GormOpen (GetTenantDSN (config s) k) po # rest'))))"
proof (intro conjI allI impI)
  show "\<exists>evs. trace w1 = trace w @ evs \<and>
     ((\<exists>x. evs = [Exec (masterDB s) (''CREATE SCHEMA IF NOT EXISTS '' @ k) (Some x)] \<and>
           r = Inl (EnsureSchemaFailed (CreateSchemaFailed x)) \<and> s1 = s) \<or>
      (\<exists>x. evs = [Exec (masterDB s) (''CREATE SCHEMA IF NOT EXISTS '' @ k) None,
                    GormOpen (GetTenantDSN (config s) k) (Some x)] \<and>
           r = Inl (TenantConnectFailed x) \<and> s1 = s) \<or>
      (\<exists>x. evs = [Exec (masterDB s) (''CREATE SCHEMA IF NOT EXISTS '' @ k) None,
                    GormOpen (GetTenantDSN (config s) k) None,
                    AutoMigrateCall (next_conn w) (Models (config s)) (Some x)] \<and>
           AutoMigrate (config s) \<and> Models (config s) \<noteq> [] \<and>
           r = Inl (AutoMigrateFailed x) \<and> s1 = s) \<or>
      (evs = [Exec (masterDB s) (''CREATE SCHEMA IF NOT EXISTS '' @ k) None,
              GormOpen (GetTenantDSN (config s) k) None,
              AutoMigrateCall (next_conn w) (Models (config s)) None] \<and>
           AutoMigrate (config s) \<and> Models (config s) \<noteq> [] \<and>
           r = Inr (next_conn w) \<and> s1 = store_conn k (next_conn w) s) \<or>
      (evs = [Exec (masterDB s) (''CREATE SCHEMA IF NOT EXISTS '' @ k) None,
              GormOpen (GetTenantDSN (config s) k) None] \<and>
           \<not> (AutoMigrate (config s) \<and> Models (config s) \<noteq> []) \<and>
           r = Inr (next_conn w) \<and> s1 = store_conn k (next_conn w) s))"
    by (rule GetTenantDB_miss_run[OF assms])
next
  fix e assume "r = Inl e"
  with assms(3) have same: "s1 = s"
    using GetTenantDB_error_unchanged by blast
  show "s1 = s" by (rule same)
  show "map_of (tenantDBs s1) k = None" using same assms(2) by simp
  show "\<exists>r2 s2 w3 pr rest. GetTenantDB d2 k s1 w2 = (r2, s2, w3) \<and>
          trace w3 = trace w2 @ Exec (masterDB s) (''CREATE SCHEMA IF NOT EXISTS '' @ k) pr # rest \<and>
          (pr = None \<longrightarrow> (\<exists>po rest'. rest = GormOpen (GetTenantDSN (config s) k) po # rest'))"
    unfolding same by (rule GetTenantDB_miss_starts_over[OF assms(1,2)])
qed

theorem GetTenantDB_failure_inserts_nothing_witness:
  "GetTenantDB driver_open_fails_once ''beta'' store_empty world_master =
     (Inl (TenantConnectFailed ''connection refused''), store_empty, world_beta_failed) \<and>
   map_of (tenantDBs store_empty) ''beta'' = None \<and>
   GetTenantDB driver_open_fails_once ''beta'' store_empty world_beta_failed =
     (Inr 1, store_conn ''beta'' 1 store_empty,
      world_beta_failed\<lparr>trace := trace world_beta_failed @
         [Exec 0 ''CREATE SCHEMA IF NOT EXISTS beta'' None,
          GormOpen ''host=db&search_path=beta,public'' None], next_conn := 2\<rparr>) \<and>
   (\<exists>r2 s2 w3 rest. GetTenantDB driver_open_fails_once ''beta'' store_empty world_beta_failed = (r2, s2, w3) \<and>
      trace w3 = trace world_beta_failed @
         Exec 0 ''CREATE SCHEMA IF NOT EXISTS beta'' None #
         GormOpen ''host=db&search_path=beta,public'' None # rest)"
proof -
  have first: "GetTenantDB driver_open_fails_once ''beta'' store_empty world_master =
     (Inl (TenantConnectFailed ''connection refused''), store_empty, world_beta_failed)"
    by (simp add: GetTenantDB_def GetTenantDB_locked_def ensureSchema_def gorm_Open_def
      db_Exec_def driver_open_fails_once_def driver_ok_def store_empty_def world_master_def
      world_beta_failed_def DefaultConfig_def)
  have second: "GetTenantDB driver_open_fails_once ''beta'' store_empty world_beta_failed =
     (Inr 1, store_conn ''beta'' 1 store_empty,
      world_beta_failed\<lparr>trace := trace world_beta_failed @
         [Exec 0 ''CREATE SCHEMA IF NOT EXISTS beta'' None,
          GormOpen ''host=db&search_path=beta,public'' None], next_conn := 2\<rparr>)"
    by (simp add: GetTenantDB_def GetTenantDB_locked_def ensureSchema_def gorm_Open_def
      db_Exec_def driver_open_fails_once_def driver_ok_def store_empty_def
      world_beta_failed_def DefaultConfig_def)
  have key: "''beta'' \<noteq> []" by simp
  have absent: "map_of (tenantDBs store_empty) ''beta'' = None" by (simp add: store_empty_def)
  from GetTenantDB_failure_inserts_nothing[OF key absent first,
      of driver_open_fails_once world_beta_failed]
  have "\<exists>r2 s2 w3 pr rest. GetTenantDB driver_open_fails_once ''beta'' store_empty world_beta_failed = (r2, s2, w3) \<and>
          trace w3 = trace world_beta_failed @
            Exec (masterDB store_empty) (''CREATE SCHEMA IF NOT EXISTS '' @ ''beta'') pr # rest \<and>
          (pr = None \<longrightarrow> (\<exists>po rest'. rest = GormOpen (GetTenantDSN (config store_empty) ''beta'') po # rest'))"
    by blast
  then have "\<exists>r2 s2 w3 rest. GetTenantDB driver_open_fails_once ''beta'' store_empty world_beta_failed = (r2, s2, w3) \<and>
      trace w3 = trace world_beta_failed @
         Exec 0 ''CREATE SCHEMA IF NOT EXISTS beta'' None #
         GormOpen ''host=db&search_path=beta,public'' None # rest"
    unfolding second by (simp add: store_empty_def DefaultConfig_def)
  with first second absent show ?thesis by blast
qed

lemma store_two_built:
  "GetTenantDB driver_ok ''beta'' store_acme world_acme = (Inr 2, store_two, world_two)"
  by (simp add: Let_def GetTenantDB_def GetTenantDB_locked_def ensureSchema_def gorm_Open_def
      db_Exec_def store_conn_def driver_ok_def store_acme_def world_acme_def
      store_two_def world_two_def DefaultConfig_def)

subsection \<open>The health check on a hit\<close>

lemma healthCheckWithInterval_run:
  assumes "healthCheckWithInterval d k db s w = (s1, w1)"
  shows "(flag (healthCheckDone s) k \<and> s1 = s \<and> w1 = w) \<or>
     (\<not> flag (healthCheckDone s) k \<and>
       ((\<exists>x. w1 = w\<lparr>trace := trace w @ [DBHandle db (Some x)]\<rparr> \<and> s1 = s) \<or>
        (\<exists>x. w1 = w\<lparr>trace := trace w @ [DBHandle db None, PingContext db (Some x)]\<rparr> \<and> s1 = s) \<or>
        (w1 = w\<lparr>trace := trace w @ [DBHandle db None, PingContext db None],
               goroutines := goroutines w @ [ResetFlag k]\<rparr> \<and>
         s1 = s\<lparr>healthCheckDone := AList.update k True (healthCheckDone s)\<rparr>)))"
  using assms
  by (auto simp: healthCheckWithInterval_def db_DB_def sql_PingContext_def Let_def
      split: option.splits if_splits)

text \<open>
  C2. On a hit with \<open>healthCheckDone\<close> unset, \<open>GetTenantDB\<close> asks for the underlying
  handle and pings it before it returns: both calls are part of the history the call
  itself produces. Only the reset of the flag is handed to a goroutine. Evaluated for
  the cached schema \<open>acme\<close>.
\<close>

theorem health_check_pings_inside_the_call:
  "GetTenantDB driver_ok ''acme'' store_acme world_acme =
     (Inr 1, store_acme\<lparr>healthCheckDone := [(''acme'', True)]\<rparr>,
      world_acme\<lparr>trace := trace world_acme @ [DBHandle 1 None, PingContext 1 None],
                 goroutines := [ResetFlag ''acme'']\<rparr>)"
  by (simp add: Let_def GetTenantDB_def healthCheckWithInterval_def db_DB_def sql_PingContext_def
      flag_def driver_ok_def store_acme_def world_acme_def)

text \<open>
  C7 (as the code has it). On a hit \<open>GetTenantDB\<close> returns the cached connection and
  never an error, and the record stays in the map, whatever the probe does. The
  verification state changes only when the probe succeeds: then \<open>healthCheckDone\<close> is
  set for the schema and one goroutine is started for it; as long as less than
  \<open>HealthCheckInterval\<close> has passed that goroutine leaves the store as it is (the flag
  stays set), and from then on it has unset the flag, the map of connections
  untouched. When the flag is already set there is no probe; when the handle cannot
  be obtained or the ping fails, the store is the one the call started with and no
  goroutine is started.
\<close>

theorem health_check_outcome:
  assumes "k \<noteq> []" and "map_of (tenantDBs s) k = Some db"
    and "GetTenantDB d k s w = (r, s1, w1)"
  shows "r = Inr db \<and> map_of (tenantDBs s1) k = Some db \<and> tenantDBs s1 = tenantDBs s \<and>
     ((flag (healthCheckDone s) k \<and> s1 = s \<and> w1 = w) \<or>
      (\<not> flag (healthCheckDone s) k \<and>
        ((\<exists>x. w1 = w\<lparr>trace := trace w @ [DBHandle db (Some x)]\<rparr> \<and> s1 = s) \<or>
         (\<exists>x. w1 = w\<lparr>trace := trace w @ [DBHandle db None, PingContext db (Some x)]\<rparr> \<and> s1 = s) \<or>
         (w1 = w\<lparr>trace := trace w @ [DBHandle db None, PingContext db None],
                goroutines := goroutines w @ [ResetFlag k]\<rparr> \<and>
          s1 = s\<lparr>healthCheckDone := AList.update k True (healthCheckDone s)\<rparr> \<and>
          flag (healthCheckDone s1) k \<and>
          (elapsed < HealthCheckInterval (config s) \<longrightarrow>
             run_goroutine (ResetFlag k) elapsed s1 = s1) \<and>
          (HealthCheckInterval (config s) \<le> elapsed \<longrightarrow>
             \<not> flag (healthCheckDone (run_goroutine (ResetFlag k) elapsed s1)) k \<and>
             tenantDBs (run_goroutine (ResetFlag k) elapsed s1) = tenantDBs s)))))"
proof -
  obtain s2 w2 where hc: "healthCheckWithInterval d k db s w = (s2, w2)"
    by (cases "healthCheckWithInterval d k db s w")
  with assms have res: "r = Inr db" "s1 = s2" "w1 = w2"
    by (auto simp: GetTenantDB_def)
  have keep: "tenantDBs s1 = tenantDBs s" using hc_tenantDBs[OF hc] res by simp
  from healthCheckWithInterval_run[OF hc] res
  have "(flag (healthCheckDone s) k \<and> s1 = s \<and> w1 = w) \<or>
      (\<not> flag (healthCheckDone s) k \<and>
        ((\<exists>x. w1 = w\<lparr>trace := trace w @ [DBHandle db (Some x)]\<rparr> \<and> s1 = s) \<or>
         (\<exists>x. w1 = w\<lparr>trace := trace w @ [DBHandle db None, PingContext db (Some x)]\<rparr> \<and> s1 = s) \<or>
         (w1 = w\<lparr>trace := trace w @ [DBHandle db None, PingContext db None],
                goroutines := goroutines w @ [ResetFlag k]\<rparr> \<and>
          s1 = s\<lparr>healthCheckDone := AList.update k True (healthCheckDone s)\<rparr> \<and>
          flag (healthCheckDone s1) k \<and>
          (elapsed < HealthCheckInterval (config s) \<longrightarrow>
             run_goroutine (ResetFlag k) elapsed s1 = s1) \<and>
          (HealthCheckInterval (config s) \<le> elapsed \<longrightarrow>
             \<not> flag (healthCheckDone (run_goroutine (ResetFlag k) elapsed s1)) k \<and>
             tenantDBs (run_goroutine (ResetFlag k) elapsed s1) = tenantDBs s))))"
    by (auto simp: flag_def update_conv')
  with res(1) keep assms(2) show ?thesis by simp
qed

text \<open>
  Instances of C7 as amended on the cached schema \<open>acme\<close>, with the default interval
  of 300 seconds: a failing ping, and a ping that succeeds, after which the goroutine
  has done nothing at 299 seconds and has unset the flag at 300.
\<close>

theorem health_check_outcome_witness:
  "map_of (tenantDBs store_acme) ''acme'' = Some 1 \<and>
   GetTenantDB driver_ping_fails ''acme'' store_acme world_acme =
     (Inr 1, store_acme,
      world_acme\<lparr>trace := trace world_acme @
        [DBHandle 1 None, PingContext 1 (Some ''i/o timeout'')]\<rparr>) \<and>
   tenantDBs store_acme = [(''acme'', 1)] \<and>
   \<not> flag (healthCheckDone store_acme) ''acme'' \<and>
   GetTenantDB driver_ok ''acme'' store_acme world_acme =
     (Inr 1, store_acme\<lparr>healthCheckDone := [(''acme'', True)]\<rparr>,
      world_acme\<lparr>trace := trace world_acme @ [DBHandle 1 None, PingContext 1 None],
                 goroutines := [ResetFlag ''acme'']\<rparr>) \<and>
   HealthCheckInterval (config store_acme) = 300 \<and>
   run_goroutine (ResetFlag ''acme'') 299 (store_acme\<lparr>healthCheckDone := [(''acme'', True)]\<rparr>) =
     store_acme\<lparr>healthCheckDone := [(''acme'', True)]\<rparr> \<and>
   flag (healthCheckDone
      (run_goroutine (ResetFlag ''acme'') 299 (store_acme\<lparr>healthCheckDone := [(''acme'', True)]\<rparr>)))
      ''acme'' \<and>
   \<not> flag (healthCheckDone
      (run_goroutine (ResetFlag ''acme'') 300 (store_acme\<lparr>healthCheckDone := [(''acme'', True)]\<rparr>)))
      ''acme''"
proof -
  have key: "''acme'' \<noteq> []" by simp
  have present: "map_of (tenantDBs store_acme) ''acme'' = Some 1" by (simp add: store_acme_def)
  have failing: "GetTenantDB driver_ping_fails ''acme'' store_acme world_acme =
     (Inr 1, store_acme,
      world_acme\<lparr>trace := trace world_acme @
        [DBHandle 1 None, PingContext 1 (Some ''i/o timeout'')]\<rparr>)"
    by (simp add: Let_def GetTenantDB_def healthCheckWithInterval_def db_DB_def sql_PingContext_def
      flag_def driver_ping_fails_def driver_ok_def store_acme_def world_acme_def)
  have passing: "GetTenantDB driver_ok ''acme'' store_acme world_acme =
     (Inr 1, store_acme\<lparr>healthCheckDone := [(''acme'', True)]\<rparr>,
      world_acme\<lparr>trace := trace world_acme @ [DBHandle 1 None, PingContext 1 None],
                 goroutines := [ResetFlag ''acme'']\<rparr>)"
    by (simp add: Let_def GetTenantDB_def healthCheckWithInterval_def db_DB_def sql_PingContext_def
      flag_def driver_ok_def store_acme_def world_acme_def)
  have unset: "\<not> flag (healthCheckDone store_acme) ''acme''"
    by (simp add: store_acme_def flag_def)
  have interval: "HealthCheckInterval (config store_acme) = 300"
    by (simp add: store_acme_def DefaultConfig_def)
  have changed: "store_acme\<lparr>healthCheckDone := [(''acme'', True)]\<rparr> \<noteq> store_acme"
    by (simp add: store_acme_def)
  have before: "299 < HealthCheckInterval (config store_acme)" using interval by simp
  have after: "HealthCheckInterval (config store_acme) \<le> 300" using interval by simp
  have set_now: "flag (healthCheckDone (store_acme\<lparr>healthCheckDone := [(''acme'', True)]\<rparr>)) ''acme''"
    by (simp add: flag_def)
  have kept: "map_of (tenantDBs store_acme) ''acme'' = Some 1"
    using health_check_outcome[OF key present failing, of 0] by blast
  have early: "run_goroutine (ResetFlag ''acme'') 299
       (store_acme\<lparr>healthCheckDone := [(''acme'', True)]\<rparr>) =
     store_acme\<lparr>healthCheckDone := [(''acme'', True)]\<rparr>"
    using health_check_outcome[OF key present passing, of 299] unset changed before
    by blast
  have late: "\<not> flag (healthCheckDone
      (run_goroutine (ResetFlag ''acme'') 300 (store_acme\<lparr>healthCheckDone := [(''acme'', True)]\<rparr>)))
      ''acme''"
    using health_check_outcome[OF key present passing, of 300] unset changed after
    by blast
  show ?thesis
    using kept failing passing unset interval early late set_now
    by (simp add: store_acme_def)
qed

text \<open>
  C7 as stated fails: after a failing ping the store is unchanged, after a successful
  one the flag is set and not cleared, so the state after the probe depends on its
  outcome.
\<close>

theorem probe_state_depends_on_outcome:
  "GetTenantDB driver_ping_fails ''acme'' store_acme world_acme =
     (Inr 1, store_acme,
      world_acme\<lparr>trace := trace world_acme @
        [DBHandle 1 None, PingContext 1 (Some ''i/o timeout'')]\<rparr>) \<and>
   GetTenantDB driver_ok ''acme'' store_acme world_acme =
     (Inr 1, store_acme\<lparr>healthCheckDone := [(''acme'', True)]\<rparr>,
      world_acme\<lparr>trace := trace world_acme @ [DBHandle 1 None, PingContext 1 None],
                 goroutines := [ResetFlag ''acme'']\<rparr>) \<and>
   flag (healthCheckDone (store_acme\<lparr>healthCheckDone := [(''acme'', True)]\<rparr>)) ''acme'' \<and>
   store_acme\<lparr>healthCheckDone := [(''acme'', True)]\<rparr> \<noteq> store_acme"
  by (simp add: Let_def GetTenantDB_def healthCheckWithInterval_def db_DB_def sql_PingContext_def
      flag_def driver_ping_fails_def driver_ok_def store_acme_def world_acme_def)

subsection \<open>RemoveTenantDB\<close>

lemma Remove_run_present:
  assumes "map_of (tenantDBs s) k = Some db" and "RemoveTenantDB d k s w = (r, s1, w1)"
  shows "\<exists>evs. trace w1 = trace w @ evs \<and>
     ((\<exists>x. evs = [DBHandle db (Some x)] \<and> r = Some (UnderlyingDBFailed x) \<and> s1 = s) \<or>
      (\<exists>x. evs = [DBHandle db None, SqlClose db (Some x)] \<and>
           r = Some (CloseConnectionFailed x) \<and> s1 = s) \<or>
      (evs = [DBHandle db None, SqlClose db None] \<and> r = None \<and>
           s1 = s\<lparr>tenantDBs := AList.delete k (tenantDBs s),
                  healthCheckDone := AList.delete k (healthCheckDone s)\<rparr>))"
  using assms
  by (auto simp: RemoveTenantDB_def db_DB_def sql_Close_def Let_def split: option.splits)



text \<open>
  C5 (as the code has it). For a schema whose record is present, \<open>RemoveTenantDB\<close> asks
  for the underlying handle and closes it. When the handle cannot be obtained or the
  close fails, it returns that error and the store is the one it was called on: the
  record stays. Only when the close succeeds are the record and the health flag of the
  schema deleted.
\<close>

theorem RemoveTenantDB_present:
  assumes "map_of (tenantDBs s) k = Some db" and "RemoveTenantDB d k s w = (r, s1, w1)"
  shows "\<exists>evs. trace w1 = trace w @ evs \<and>
     ((\<exists>x. evs = [DBHandle db (Some x)] \<and> r = Some (UnderlyingDBFailed x) \<and>
           s1 = s \<and> map_of (tenantDBs s1) k = Some db) \<or>
      (\<exists>x. evs = [DBHandle db None, SqlClose db (Some x)] \<and>
           r = Some (CloseConnectionFailed x) \<and> s1 = s \<and> map_of (tenantDBs s1) k = Some db) \<or>
      (evs = [DBHandle db None, SqlClose db None] \<and> r = None \<and>
           map_of (tenantDBs s1) k = None \<and> map_of (healthCheckDone s1) k = None \<and>
           s1 = s\<lparr>tenantDBs := AList.delete k (tenantDBs s),
                  healthCheckDone := AList.delete k (healthCheckDone s)\<rparr>))"
  using Remove_run_present[OF assms] assms(1)
  by (auto simp: delete_conv')

text \<open>An instance of C5 as amended: removing the cached schema \<open>acme\<close>.\<close>

theorem RemoveTenantDB_present_witness:
  "map_of (tenantDBs store_acme) ''acme'' = Some 1 \<and>
   RemoveTenantDB driver_close_fails ''acme'' store_acme world_acme =
     (Some (CloseConnectionFailed ''close failed''), store_acme,
      world_acme\<lparr>trace := trace world_acme @ [DBHandle 1 None, SqlClose 1 (Some ''close failed'')]\<rparr>) \<and>
   RemoveTenantDB driver_ok ''acme'' store_acme world_acme =
     (None, store_empty,
      world_acme\<lparr>trace := trace world_acme @ [DBHandle 1 None, SqlClose 1 None]\<rparr>) \<and>
   map_of (tenantDBs store_empty) ''acme'' = None"
proof -
  have present: "map_of (tenantDBs store_acme) ''acme'' = Some 1" by (simp add: store_acme_def)
  have failing: "RemoveTenantDB driver_close_fails ''acme'' store_acme world_acme =
     (Some (CloseConnectionFailed ''close failed''), store_acme,
      world_acme\<lparr>trace := trace world_acme @ [DBHandle 1 None, SqlClose 1 (Some ''close failed'')]\<rparr>)"
    by (simp add: Let_def RemoveTenantDB_def db_DB_def sql_Close_def driver_close_fails_def driver_ok_def
      store_acme_def world_acme_def)
  have closing: "RemoveTenantDB driver_ok ''acme'' store_acme world_acme =
     (None, store_empty,
      world_acme\<lparr>trace := trace world_acme @ [DBHandle 1 None, SqlClose 1 None]\<rparr>)"
    by (simp add: RemoveTenantDB_def db_DB_def sql_Close_def driver_ok_def
      store_acme_def store_empty_def world_acme_def)
  from RemoveTenantDB_present[OF present closing]
  have "map_of (tenantDBs store_empty) ''acme'' = None" by auto
  with present failing closing show ?thesis by blast
qed

text \<open>
  C5 as stated fails: when the close of \<open>acme\<close> fails, the error is returned and
  \<open>acme\<close> is still in the map.
\<close>

theorem RemoveTenantDB_close_failure_keeps_record:
  "RemoveTenantDB driver_close_fails ''acme'' store_acme world_acme =
     (Some (CloseConnectionFailed ''close failed''), store_acme,
      world_acme\<lparr>trace := trace world_acme @ [DBHandle 1 None, SqlClose 1 (Some ''close failed'')]\<rparr>) \<and>
   map_of (tenantDBs store_acme) ''acme'' = Some 1 \<and>
   GetAllTenantSchemas store_acme = [''acme'']"
  by (simp add: Let_def RemoveTenantDB_def db_DB_def sql_Close_def driver_close_fails_def driver_ok_def
      store_acme_def world_acme_def GetAllTenantSchemas_def)




subsection \<open>Close\<close>

lemma close_tenants_run:
  "close_tenants d kvs errs w = (errs1, w1) \<Longrightarrow>
   \<exists>evs new. trace w1 = trace w @ evs \<and> errs1 = errs @ new \<and>
     length new = length (filter failed evs) \<and>
     (\<forall>(k, c) \<in> set kvs.
        (\<exists>x. DBHandle c (Some x) \<in> set evs \<and> GetDBForFailed k x \<in> set new) \<or>
        (DBHandle c None \<in> set evs \<and>
           (SqlClose c None \<in> set evs \<or>
            (\<exists>x. SqlClose c (Some x) \<in> set evs \<and> CloseConnectionForFailed k x \<in> set new))))"
proof (induction kvs arbitrary: errs w)
  case Nil
  then show ?case by simp
next
  case (Cons kc rest)
  obtain k c where kc: "kc = (k, c)" by (cases kc)
  let ?h = "handle_result d (trace w) c"
  let ?wh = "w\<lparr>trace := trace w @ [DBHandle c ?h]\<rparr>"
  show ?case
  proof (cases ?h)
    case (Some x)
    with Cons.prems kc have run: "close_tenants d rest (errs @ [GetDBForFailed k x]) ?wh = (errs1, w1)"
      by (simp add: db_DB_def Let_def)
    from Cons.IH[OF run] obtain evs new where
      ih: "trace w1 = trace ?wh @ evs" "errs1 = (errs @ [GetDBForFailed k x]) @ new"
        "length new = length (filter failed evs)"
        "\<forall>(k, c) \<in> set rest.
          (\<exists>x. DBHandle c (Some x) \<in> set evs \<and> GetDBForFailed k x \<in> set new) \<or>
          (DBHandle c None \<in> set evs \<and>
             (SqlClose c None \<in> set evs \<or>
              (\<exists>x. SqlClose c (Some x) \<in> set evs \<and> CloseConnectionForFailed k x \<in> set new)))"
      by blast
    let ?evs = "DBHandle c (Some x) # evs" and ?new = "GetDBForFailed k x # new"
    have "trace w1 = trace w @ ?evs" using ih(1) Some by simp
    moreover have "errs1 = errs @ ?new" using ih(2) by simp
    moreover have "length ?new = length (filter failed ?evs)" using ih(3) by simp
    moreover have "\<forall>(k, c) \<in> set (kc # rest).
          (\<exists>x. DBHandle c (Some x) \<in> set ?evs \<and> GetDBForFailed k x \<in> set ?new) \<or>
          (DBHandle c None \<in> set ?evs \<and>
             (SqlClose c None \<in> set ?evs \<or>
              (\<exists>x. SqlClose c (Some x) \<in> set ?evs \<and> CloseConnectionForFailed k x \<in> set ?new)))"
      using ih(4) kc by fastforce
    ultimately show ?thesis by blast
  next
    case None
    let ?cl = "close_result d (trace ?wh) c"
    let ?wc = "?wh\<lparr>trace := trace ?wh @ [SqlClose c ?cl]\<rparr>"
    show ?thesis
    proof (cases ?cl)
      case (Some x)
      with None Cons.prems kc
      have run: "close_tenants d rest (errs @ [CloseConnectionForFailed k x]) ?wc = (errs1, w1)"
        by (simp add: db_DB_def sql_Close_def Let_def)
      from Cons.IH[OF run] obtain evs new where
        ih: "trace w1 = trace ?wc @ evs" "errs1 = (errs @ [CloseConnectionForFailed k x]) @ new"
          "length new = length (filter failed evs)"
          "\<forall>(k, c) \<in> set rest.
            (\<exists>x. DBHandle c (Some x) \<in> set evs \<and> GetDBForFailed k x \<in> set new) \<or>
            (DBHandle c None \<in> set evs \<and>
               (SqlClose c None \<in> set evs \<or>
                (\<exists>x. SqlClose c (Some x) \<in> set evs \<and> CloseConnectionForFailed k x \<in> set new)))"
        by blast
      let ?evs = "DBHandle c None # SqlClose c (Some x) # evs"
      let ?new = "CloseConnectionForFailed k x # new"
      have "trace w1 = trace w @ ?evs" using ih(1) None Some by simp
      moreover have "errs1 = errs @ ?new" using ih(2) by simp
      moreover have "length ?new = length (filter failed ?evs)" using ih(3) by simp
      moreover have "\<forall>(k, c) \<in> set (kc # rest).
            (\<exists>x. DBHandle c (Some x) \<in> set ?evs \<and> GetDBForFailed k x \<in> set ?new) \<or>
            (DBHandle c None \<in> set ?evs \<and>
               (SqlClose c None \<in> set ?evs \<or>
                (\<exists>x. SqlClose c (Some x) \<in> set ?evs \<and> CloseConnectionForFailed k x \<in> set ?new)))"
        using ih(4) kc by fastforce
      ultimately show ?thesis by blast
    next
      case cl_ok: None
      with None Cons.prems kc
      have run: "close_tenants d rest errs ?wc = (errs1, w1)"
        by (simp add: db_DB_def sql_Close_def Let_def)
      from Cons.IH[OF run] obtain evs new where
        ih: "trace w1 = trace ?wc @ evs" "errs1 = errs @ new"
          "length new = length (filter failed evs)"
          "\<forall>(k, c) \<in> set rest.
            (\<exists>x. DBHandle c (Some x) \<in> set evs \<and> GetDBForFailed k x \<in> set new) \<or>
            (DBHandle c None \<in> set evs \<and>
               (SqlClose c None \<in> set evs \<or>
                (\<exists>x. SqlClose c (Some x) \<in> set evs \<and> CloseConnectionForFailed k x \<in> set new)))"
        by blast
      let ?evs = "DBHandle c None # SqlClose c None # evs"
      have "trace w1 = trace w @ ?evs" using ih(1) None cl_ok by simp
      moreover have "length new = length (filter failed ?evs)" using ih(3) by simp
      moreover have "\<forall>(k, c) \<in> set (kc # rest).
            (\<exists>x. DBHandle c (Some x) \<in> set ?evs \<and> GetDBForFailed k x \<in> set new) \<or>
            (DBHandle c None \<in> set ?evs \<and>
               (SqlClose c None \<in> set ?evs \<or>
                (\<exists>x. SqlClose c (Some x) \<in> set ?evs \<and> CloseConnectionForFailed k x \<in> set new)))"
        using ih(4) kc by fastforce
      ultimately show ?thesis using ih(2) by blast
    qed
  qed
qed

lemma close_master_run:
  "close_master d m errs w = (errs1, w1) \<Longrightarrow>
   \<exists>evs new. trace w1 = trace w @ evs \<and> errs1 = errs @ new \<and>
     length new = length (filter failed evs) \<and>
     ((\<exists>x. evs = [DBHandle m (Some x)] \<and> new = [GetMasterDBFailed x]) \<or>
      (\<exists>x. evs = [DBHandle m None, SqlClose m (Some x)] \<and> new = [CloseMasterFailed x]) \<or>
      (evs = [DBHandle m None, SqlClose m None] \<and> new = []))"
  by (auto simp: close_master_def db_DB_def sql_Close_def Let_def split: option.splits)

lemma Close_store_unchanged:
  "Close d s w = (r, s1, w1) \<Longrightarrow> s1 = s"
  by (auto simp: Close_def split: prod.splits)

lemma Close_two_eval:
  "Close driver_acme_close_fails store_two world_two =
     (Some (CloseErrors [CloseConnectionForFailed ''acme'' ''close failed'']), store_two,
      world_two\<lparr>trace := trace world_two @
        [DBHandle 1 None, SqlClose 1 (Some ''close failed''),
         DBHandle 2 None, SqlClose 2 None,
         DBHandle 0 None, SqlClose 0 None]\<rparr>)"
  by (simp add: Let_def Close_def close_master_def db_DB_def sql_Close_def
      driver_acme_close_fails_def driver_ok_def store_two_def world_two_def)

text \<open>
  C6. \<open>Close\<close> visits every cached connection: it asks for the underlying handle and,
  when it gets one, closes it; a failure of either call is appended to the error list
  and the loop goes on. After the tenants it does the same for the master connection.
  The error list has one entry for each failed call, and \<open>Close\<close> returns no error
  exactly when the list is empty, and the whole list otherwise.
\<close>

theorem Close_attempts_all_reports_all:
  assumes "Close d s w = (r, s1, w1)"
  shows "\<exists>evs_t evs_m errs. trace w1 = trace w @ evs_t @ evs_m \<and>
     (\<forall>(k, c) \<in> set (tenantDBs s).
        (\<exists>x. DBHandle c (Some x) \<in> set evs_t \<and> GetDBForFailed k x \<in> set errs) \<or>
        (DBHandle c None \<in> set evs_t \<and>
           (SqlClose c None \<in> set evs_t \<or>
            (\<exists>x. SqlClose c (Some x) \<in> set evs_t \<and> CloseConnectionForFailed k x \<in> set errs)))) \<and>
     ((\<exists>x. evs_m = [DBHandle (masterDB s) (Some x)] \<and> GetMasterDBFailed x \<in> set errs) \<or>
      (\<exists>x. evs_m = [DBHandle (masterDB s) None, SqlClose (masterDB s) (Some x)] \<and>
           CloseMasterFailed x \<in> set errs) \<or>
      evs_m = [DBHandle (masterDB s) None, SqlClose (masterDB s) None]) \<and>
     length errs = length (filter failed (evs_t @ evs_m)) \<and>
     r = (if errs = [] then None else Some (CloseErrors errs))"
proof -
  obtain errs_t wt where t: "close_tenants d (tenantDBs s) [] w = (errs_t, wt)"
    by (cases "close_tenants d (tenantDBs s) [] w")
  obtain errs wm where m: "close_master d (masterDB s) errs_t wt = (errs, wm)"
    by (cases "close_master d (masterDB s) errs_t wt")
  from assms t m have res: "r = (if errs = [] then None else Some (CloseErrors errs))" "w1 = wm"
    by (auto simp: Close_def)
  from close_tenants_run[OF t] obtain evs_t where
    et: "trace wt = trace w @ evs_t" "length errs_t = length (filter failed evs_t)"
      "\<forall>(k, c) \<in> set (tenantDBs s).
        (\<exists>x. DBHandle c (Some x) \<in> set evs_t \<and> GetDBForFailed k x \<in> set errs_t) \<or>
        (DBHandle c None \<in> set evs_t \<and>
           (SqlClose c None \<in> set evs_t \<or>
            (\<exists>x. SqlClose c (Some x) \<in> set evs_t \<and> CloseConnectionForFailed k x \<in> set errs_t)))"
    by auto
  from close_master_run[OF m] obtain evs_m new where
    em: "trace wm = trace wt @ evs_m" "errs = errs_t @ new"
      "length new = length (filter failed evs_m)"
      "(\<exists>x. evs_m = [DBHandle (masterDB s) (Some x)] \<and> new = [GetMasterDBFailed x]) \<or>
       (\<exists>x. evs_m = [DBHandle (masterDB s) None, SqlClose (masterDB s) (Some x)] \<and>
            new = [CloseMasterFailed x]) \<or>
       (evs_m = [DBHandle (masterDB s) None, SqlClose (masterDB s) None] \<and> new = [])"
    by blast
  have "trace w1 = trace w @ evs_t @ evs_m" using et(1) em(1) res(2) by simp
  moreover have "\<forall>(k, c) \<in> set (tenantDBs s).
        (\<exists>x. DBHandle c (Some x) \<in> set evs_t \<and> GetDBForFailed k x \<in> set errs) \<or>
        (DBHandle c None \<in> set evs_t \<and>
           (SqlClose c None \<in> set evs_t \<or>
            (\<exists>x. SqlClose c (Some x) \<in> set evs_t \<and> CloseConnectionForFailed k x \<in> set errs)))"
    using et(3) em(2) by fastforce
  moreover have "(\<exists>x. evs_m = [DBHandle (masterDB s) (Some x)] \<and> GetMasterDBFailed x \<in> set errs) \<or>
      (\<exists>x. evs_m = [DBHandle (masterDB s) None, SqlClose (masterDB s) (Some x)] \<and>
           CloseMasterFailed x \<in> set errs) \<or>
      evs_m = [DBHandle (masterDB s) None, SqlClose (masterDB s) None]"
    using em(4) em(2) by auto
  moreover have "length errs = length (filter failed (evs_t @ evs_m))"
    using et(2) em(2,3) by simp
  ultimately show ?thesis using res(1) by blast
qed

text \<open>
  An instance of C6: two cached schemas, the close of the first fails, the second and
  the master are closed all the same.
\<close>

theorem Close_attempts_all_reports_all_witness:
  "Close driver_acme_close_fails store_two world_two =
     (Some (CloseErrors [CloseConnectionForFailed ''acme'' ''close failed'']), store_two,
      world_two\<lparr>trace := trace world_two @
        [DBHandle 1 None, SqlClose 1 (Some ''close failed''),
         DBHandle 2 None, SqlClose 2 None,
         DBHandle 0 None, SqlClose 0 None]\<rparr>) \<and>
   (\<exists>evs_t evs_m errs.
      [DBHandle 1 None, SqlClose 1 (Some ''close failed''), DBHandle 2 None, SqlClose 2 None,
       DBHandle 0 None, SqlClose 0 None] = evs_t @ evs_m \<and>
      DBHandle 1 None \<in> set evs_t \<and> SqlClose 1 (Some ''close failed'') \<in> set evs_t \<and>
      CloseConnectionForFailed ''acme'' ''close failed'' \<in> set errs \<and>
      DBHandle 2 None \<in> set evs_t \<and> SqlClose 2 None \<in> set evs_t \<and>
      evs_m = [DBHandle 0 None, SqlClose 0 None] \<and>
      length errs = 1 \<and>
      Some (CloseErrors [CloseConnectionForFailed ''acme'' ''close failed'']) = Some (CloseErrors errs))"
proof -
  from Close_attempts_all_reports_all[OF Close_two_eval]
  obtain evs_t evs_m errs where
    h: "trace (world_two\<lparr>trace := trace world_two @
        [DBHandle 1 None, SqlClose 1 (Some ''close failed''),
         DBHandle 2 None, SqlClose 2 None,
         DBHandle 0 None, SqlClose 0 None]\<rparr>) = trace world_two @ evs_t @ evs_m"
     "\<forall>(k, c) \<in> set (tenantDBs store_two).
        (\<exists>x. DBHandle c (Some x) \<in> set evs_t \<and> GetDBForFailed k x \<in> set errs) \<or>
        (DBHandle c None \<in> set evs_t \<and>
           (SqlClose c None \<in> set evs_t \<or>
            (\<exists>x. SqlClose c (Some x) \<in> set evs_t \<and> CloseConnectionForFailed k x \<in> set errs)))"
     "(\<exists>x. evs_m = [DBHandle (masterDB store_two) (Some x)] \<and> GetMasterDBFailed x \<in> set errs) \<or>
      (\<exists>x. evs_m = [DBHandle (masterDB store_two) None, SqlClose (masterDB store_two) (Some x)] \<and>
           CloseMasterFailed x \<in> set errs) \<or>
      evs_m = [DBHandle (masterDB store_two) None, SqlClose (masterDB store_two) None]"
     "length errs = length (filter failed (evs_t @ evs_m))"
     "Some (CloseErrors [CloseConnectionForFailed ''acme'' ''close failed'']) =
        (if errs = [] then None else Some (CloseErrors errs))"
    by blast
  from h(5) have errs: "errs = [CloseConnectionForFailed ''acme'' ''close failed'']"
    by (simp split: if_splits)
  from h(1) have split: "[DBHandle 1 None, SqlClose 1 (Some ''close failed''), DBHandle 2 None,
       SqlClose 2 None, DBHandle 0 None, SqlClose 0 None] = evs_t @ evs_m"
    by simp
  have m0: "masterDB store_two = 0" by (simp add: store_two_def)
  from h(3) errs have "evs_m = [DBHandle 0 None, SqlClose 0 None] \<or>
      (\<exists>x. evs_m = [DBHandle 0 (Some x)])" unfolding m0 by auto
  with split have evs_m: "evs_m = [DBHandle 0 None, SqlClose 0 None]"
    by (auto simp: append_eq_Cons_conv Cons_eq_append_conv)
  with split have evs_t: "evs_t = [DBHandle 1 None, SqlClose 1 (Some ''close failed''),
       DBHandle 2 None, SqlClose 2 None]"
    by simp
  show ?thesis
    using Close_two_eval split evs_m evs_t errs by simp
qed

text \<open>
  C4 (as the code has it). \<open>Close\<close> leaves the store as it is: the map is not cleared,
  and \<open>GetAllTenantSchemas\<close> afterwards returns every schema that was cached. For
  every cached connection the close was attempted whatever failed before: the
  underlying handle was asked for and, when it was obtained, closed.
\<close>

theorem Close_keeps_map:
  assumes "Close d s w = (r, s1, w1)"
  shows "s1 = s \<and> GetAllTenantSchemas s1 = map fst (tenantDBs s) \<and>
     (\<exists>evs. trace w1 = trace w @ evs \<and>
        (\<forall>(k, c) \<in> set (tenantDBs s).
           (\<exists>x. DBHandle c (Some x) \<in> set evs) \<or>
           (DBHandle c None \<in> set evs \<and> (\<exists>cr. SqlClose c cr \<in> set evs))))"
proof -
  have same: "s1 = s" using assms by (rule Close_store_unchanged)
  obtain errs_t wt where t: "close_tenants d (tenantDBs s) [] w = (errs_t, wt)"
    by (cases "close_tenants d (tenantDBs s) [] w")
  obtain errs wm where m: "close_master d (masterDB s) errs_t wt = (errs, wm)"
    by (cases "close_master d (masterDB s) errs_t wt")
  from assms t m have w1: "w1 = wm" by (auto simp: Close_def)
  from close_tenants_run[OF t] obtain evs_t where
    et: "trace wt = trace w @ evs_t"
      "\<forall>(k, c) \<in> set (tenantDBs s).
        (\<exists>x. DBHandle c (Some x) \<in> set evs_t \<and> GetDBForFailed k x \<in> set errs_t) \<or>
        (DBHandle c None \<in> set evs_t \<and>
           (SqlClose c None \<in> set evs_t \<or>
            (\<exists>x. SqlClose c (Some x) \<in> set evs_t \<and> CloseConnectionForFailed k x \<in> set errs_t)))"
    by auto
  from close_master_run[OF m] obtain evs_m where em: "trace wm = trace wt @ evs_m"
    by blast
  have "trace w1 = trace w @ (evs_t @ evs_m)" using et(1) em w1 by simp
  moreover have "\<forall>(k, c) \<in> set (tenantDBs s).
           (\<exists>x. DBHandle c (Some x) \<in> set (evs_t @ evs_m)) \<or>
           (DBHandle c None \<in> set (evs_t @ evs_m) \<and> (\<exists>cr. SqlClose c cr \<in> set (evs_t @ evs_m)))"
    using et(2) by fastforce
  ultimately show ?thesis using same by (auto simp: GetAllTenantSchemas_def)
qed

text \<open>An instance of C4 as amended, on two cached schemas.\<close>

theorem Close_keeps_map_witness:
  "Close driver_acme_close_fails store_two world_two =
     (Some (CloseErrors [CloseConnectionForFailed ''acme'' ''close failed'']), store_two,
      world_two\<lparr>trace := trace world_two @
        [DBHandle 1 None, SqlClose 1 (Some ''close failed''),
         DBHandle 2 None, SqlClose 2 None,
         DBHandle 0 None, SqlClose 0 None]\<rparr>) \<and>
   GetAllTenantSchemas store_two = [''acme'', ''beta''] \<and>
   (\<exists>evs. trace world_two @
        [DBHandle 1 None, SqlClose 1 (Some ''close failed''),
         DBHandle 2 None, SqlClose 2 None,
         DBHandle 0 None, SqlClose 0 None] = trace world_two @ evs \<and>
      DBHandle 1 None \<in> set evs \<and> (\<exists>cr. SqlClose 1 cr \<in> set evs) \<and>
      DBHandle 2 None \<in> set evs \<and> (\<exists>cr. SqlClose 2 cr \<in> set evs))"
proof -
  from Close_keeps_map[OF Close_two_eval]
  have keys: "GetAllTenantSchemas store_two = map fst (tenantDBs store_two)" by blast
  have "\<exists>evs. trace world_two @
        [DBHandle 1 None, SqlClose 1 (Some ''close failed''),
         DBHandle 2 None, SqlClose 2 None,
         DBHandle 0 None, SqlClose 0 None] = trace world_two @ evs \<and>
      DBHandle 1 None \<in> set evs \<and> (\<exists>cr. SqlClose 1 cr \<in> set evs) \<and>
      DBHandle 2 None \<in> set evs \<and> (\<exists>cr. SqlClose 2 cr \<in> set evs)"
    using Close_keeps_map[OF Close_two_eval] by (auto simp: store_two_def)
  with keys Close_two_eval show ?thesis by (simp add: store_two_def)
qed

text \<open>
  C4 as stated fails: after \<open>Close\<close> on a store with the schema \<open>acme\<close> cached,
  \<open>GetAllTenantSchemas\<close> still returns \<open>acme\<close>.
\<close>

theorem Close_does_not_clear_map:
  "Close driver_ok store_acme world_acme =
     (None, store_acme,
      world_acme\<lparr>trace := trace world_acme @
        [DBHandle 1 None, SqlClose 1 None, DBHandle 0 None, SqlClose 0 None]\<rparr>) \<and>
   GetAllTenantSchemas store_acme = [''acme''] \<and>
   GetAllTenantSchemas store_acme \<noteq> []"
  by (simp add: Let_def Close_def close_master_def db_DB_def sql_Close_def
      driver_ok_def store_acme_def world_acme_def GetAllTenantSchemas_def)

end
